theory Spec2Isabelle
  imports Main
begin

section \<open>JavaScript values used by the client\<close>

text \<open>
  Counters and instants (milliseconds since the epoch) are JavaScript numbers that only
  ever hold integers here; they are modelled as \<open>int\<close>, which is exact for every value
  below \<open>2 ^ 53\<close> in magnitude. The one non-integer that the code can produce is the \<open>NaN\<close>
  of a failed \<open>parseInt\<close>, so a \<open>number\<close> is an integer or \<open>NaN\<close>; a test with \<open>isNaN\<close> is a
  case distinction on it.
\<close>

datatype number = Num int | NaN

text \<open>\<open>Math.ceil(x / n)\<close> for integers \<open>x\<close> and a positive integer \<open>n\<close>.\<close>

definition ceil_div :: "int \<Rightarrow> int \<Rightarrow> int" where
  "ceil_div x n = - ((- x) div n)"

subsection \<open>\<open>parseInt(s, 10)\<close>\<close>

text \<open>
  \<open>parseInt\<close> with radix 10: leading white space is skipped, one sign is accepted, then the
  longest run of decimal digits is read and everything after it is ignored. No digit at
  all gives \<open>NaN\<close>. A header value is a byte string, each byte read as the character of that
  code; the white space of the language among the characters below 256 is the tab, the
  line feed, the vertical tab, the form feed, the carriage return, the space and the
  no-break space.
\<close>

definition isStrWhiteSpace :: "char \<Rightarrow> bool" where
  "isStrWhiteSpace c =
     (c \<in> set [CHR 0x20, CHR 0x09, CHR 0x0A, CHR 0x0B, CHR 0x0C, CHR 0x0D, CHR 0xA0])"

definition isDigit :: "char \<Rightarrow> bool" where
  "isDigit c = (48 \<le> (of_char c :: nat) \<and> (of_char c :: nat) \<le> 57)"

definition digitVal :: "char \<Rightarrow> int" where
  "digitVal c = int (of_char c) - 48"

definition digitsVal :: "string \<Rightarrow> int" where
  "digitsVal ds = foldl (\<lambda>a c. 10 * a + digitVal c) 0 ds"

fun stripSign :: "string \<Rightarrow> int \<times> string" where
  "stripSign [] = (1, [])"
| "stripSign (c # r) =
     (if c = CHR ''-'' then (- 1, r) else if c = CHR ''+'' then (1, r) else (1, c # r))"

definition parseInt :: "string \<Rightarrow> number" where
  "parseInt s =
     (case stripSign (dropWhile isStrWhiteSpace s) of
        (sign, u) \<Rightarrow>
          (let ds = takeWhile isDigit u
           in if ds = [] then NaN else Num (sign * digitsVal ds)))"

subsection \<open>Numbers in template strings\<close>

fun showNat :: "nat \<Rightarrow> string" where
  "showNat n =
     (if n < 10 then [char_of (48 + n)] else showNat (n div 10) @ [char_of (48 + n mod 10)])"

declare showNat.simps [simp del]

definition showInt :: "int \<Rightarrow> string" where
  "showInt i = (if i < 0 then CHR ''-'' # showNat (nat (- i)) else showNat (nat i))"

text \<open>\<open>Array.prototype.join\<close> on strings.\<close>

fun join :: "string \<Rightarrow> string list \<Rightarrow> string" where
  "join sep [] = []"
| "join sep [x] = x"
| "join sep (x # y # ys) = x @ sep @ join sep (y # ys)"

text \<open>\<open>String.prototype.includes\<close>.\<close>

fun startsWith :: "string \<Rightarrow> string \<Rightarrow> bool" where
  "startsWith s [] = True"
| "startsWith [] (c # cs) = False"
| "startsWith (d # ds) (c # cs) = (d = c \<and> startsWith ds cs)"

fun includesStr :: "string \<Rightarrow> string \<Rightarrow> bool" where
  "includesStr [] sub = (sub = [])"
| "includesStr (c # cs) sub = (startsWith (c # cs) sub \<or> includesStr cs sub)"

text \<open>
  A \<open>Headers\<close> object: names are stored in lower case and \<open>get\<close> answers \<open>null\<close> for a
  name that is absent.
\<close>

type_synonym Headers = "(string \<times> string) list"

definition get :: "Headers \<Rightarrow> string \<Rightarrow> string option" where
  "get h name = map_of h name"

section \<open>The rate limiter\<close>

datatype RateLimitError = RateLimitError (message: string) (retryAfter: number)

record RateLimiter =
  tokens :: int
  lastRefill :: int
  dailyCount :: int
  dailyReset :: int
  concurrent :: int
  waitingQueue :: "nat list"

definition maxTokens :: int where "maxTokens = 60"
definition refillInterval :: int where "refillInterval = 60000"
definition dailyLimit :: int where "dailyLimit = 5000"
definition maxConcurrent :: int where "maxConcurrent = 5"

text \<open>
  \<open>getNextMidnight\<close> asks the host's calendar for the start of the next local day. The
  host's time zone is the parameter \<open>tz\<close>, its offset from UTC in milliseconds, taken as
  fixed (no daylight-saving change between two calls).
\<close>

definition msPerDay :: int where "msPerDay = 86400000"

definition getNextMidnight :: "int \<Rightarrow> int \<Rightarrow> int" where
  "getNextMidnight tz now = ((now + tz) div msPerDay + 1) * msPerDay - tz"

text \<open>The constructor, run at instant \<open>now\<close>.\<close>

definition newRateLimiter :: "int \<Rightarrow> int \<Rightarrow> RateLimiter" where
  "newRateLimiter tz now =
     \<lparr> tokens = maxTokens, lastRefill = now, dailyCount = 0,
       dailyReset = getNextMidnight tz now, concurrent = 0, waitingQueue = [] \<rparr>"

definition refillTokens :: "int \<Rightarrow> int \<Rightarrow> RateLimiter \<Rightarrow> RateLimiter" where
  "refillTokens tz now s =
     (let s1 = (if now \<ge> dailyReset s
                then s\<lparr>dailyCount := 0, dailyReset := getNextMidnight tz now\<rparr>
                else s);
          elapsed = now - lastRefill s1
      in if elapsed \<ge> refillInterval
         then (let refills = elapsed div refillInterval
               in s1\<lparr>tokens := min maxTokens (tokens s1 + refills * maxTokens),
                      lastRefill := now - (elapsed mod refillInterval)\<rparr>)
         else s1)"

text \<open>
  \<open>acquire\<close> is an async function: a call runs synchronously up to its first \<open>await\<close> and
  is resumed later from there. Its outcome at such a point is that it has returned
  (\<open>Admitted\<close>), has thrown, or is suspended on the waiter queue or on the refill timer.
  The resolve callback that \<open>waitForSlot\<close> pushes on the queue is represented by the
  identifier \<open>tid\<close> of the suspended caller. All readings of \<open>Date.now()\<close> within one
  synchronous run give the same instant \<open>now\<close>.
\<close>

datatype acquire_outcome =
    Admitted
  | Thrown RateLimitError
  | AwaitSlot
  | AwaitRefill int

text \<open>From the head of the loop of lines 97 to 101, to the end of \<open>acquire\<close>.\<close>

definition tokenLoop :: "int \<Rightarrow> RateLimiter \<Rightarrow> acquire_outcome \<times> RateLimiter" where
  "tokenLoop now s =
     (if tokens s \<le> 0
      then (let waitTime = refillInterval - (now - lastRefill s)
            in (AwaitRefill (max waitTime 100), s))
      else (Admitted, s\<lparr>tokens := tokens s - 1,
                         dailyCount := dailyCount s + 1,
                         concurrent := concurrent s + 1\<rparr>))"

text \<open>From the head of the loop of lines 92 to 94.\<close>

definition slotLoop :: "nat \<Rightarrow> int \<Rightarrow> RateLimiter \<Rightarrow> acquire_outcome \<times> RateLimiter" where
  "slotLoop tid now s =
     (if concurrent s \<ge> maxConcurrent
      then (AwaitSlot, s\<lparr>waitingQueue := waitingQueue s @ [tid]\<rparr>)
      else tokenLoop now s)"

text \<open>The call itself, up to its first suspension.\<close>

definition dailyLimitMessage :: "int \<Rightarrow> string" where
  "dailyLimitMessage waitTime =
     ''Daily limit of '' @ showInt dailyLimit @ '' requests exceeded. Resets in ''
       @ showInt (ceil_div waitTime 3600) @ '' hours.''"

definition acquire :: "nat \<Rightarrow> int \<Rightarrow> int \<Rightarrow> RateLimiter \<Rightarrow> acquire_outcome \<times> RateLimiter" where
  "acquire tid tz now s =
     (let s1 = refillTokens tz now s
      in if dailyCount s1 \<ge> dailyLimit
         then (let waitTime = ceil_div (dailyReset s1 - now) 1000
               in (Thrown (RateLimitError (dailyLimitMessage waitTime) (Num waitTime)), s1))
         else slotLoop tid now s1)"

text \<open>Resumption after the timer of line 99 has fired: line 100, then the loop test again.\<close>

definition resumeAfterSleep :: "int \<Rightarrow> int \<Rightarrow> RateLimiter \<Rightarrow> acquire_outcome \<times> RateLimiter" where
  "resumeAfterSleep tz now s = tokenLoop now (refillTokens tz now s)"

text \<open>
  \<open>release\<close> returns the new state and the waiter whose callback it has called, if any.
\<close>

definition release :: "RateLimiter \<Rightarrow> nat option \<times> RateLimiter" where
  "release s =
     (let s1 = s\<lparr>concurrent := max 0 (concurrent s - 1)\<rparr>
      in case waitingQueue s1 of
           [] \<Rightarrow> (None, s1)
         | next # rest \<Rightarrow> (Some next, s1\<lparr>waitingQueue := rest\<rparr>))"

definition updateFromHeaders :: "Headers \<Rightarrow> RateLimiter \<Rightarrow> RateLimiter" where
  "updateFromHeaders headers s =
     (let minuteRemaining = get headers ''x-ratelimit-minute-remaining'';
          dayRemaining = get headers ''x-ratelimit-day-remaining'';
          s1 = (case minuteRemaining of
                  None \<Rightarrow> s
                | Some m \<Rightarrow>
                    (case parseInt m of
                       NaN \<Rightarrow> s
                     | Num remaining \<Rightarrow> s\<lparr>tokens := min remaining (tokens s)\<rparr>))
      in case dayRemaining of
           None \<Rightarrow> s1
         | Some d \<Rightarrow>
             (case parseInt d of
                NaN \<Rightarrow> s1
              | Num remaining \<Rightarrow> s1\<lparr>dailyCount := dailyLimit - remaining\<rparr>))"

subsection \<open>Callers interleaved by the event loop\<close>

text \<open>
  Callers run on one thread and yield only at an \<open>await\<close>, so a history of the limiter is a
  sequence of atomic steps: a new call of \<open>acquire\<close> running to its first suspension, a call
  of \<open>release\<close>, the resumption of a suspended caller whose promise has been resolved or
  whose timer has expired, and the passing of time. A timer never fires early; it may
  fire late.
\<close>

datatype task =
    InQueue
  | Woken
  | Asleep int
  | Holding
  | Failed RateLimitError

datatype event = CallAcquire | CallRelease | Resume nat | Advance nat

record scheduler =
  lim :: RateLimiter
  time :: int
  tasks :: "task list"

definition taskOf :: "int \<Rightarrow> acquire_outcome \<Rightarrow> task" where
  "taskOf now out =
     (case out of
        Admitted \<Rightarrow> Holding
      | Thrown e \<Rightarrow> Failed e
      | AwaitSlot \<Rightarrow> InQueue
      | AwaitRefill ms \<Rightarrow> Asleep (now + ms))"

definition newScheduler :: "int \<Rightarrow> int \<Rightarrow> scheduler" where
  "newScheduler tz now = \<lparr> lim = newRateLimiter tz now, time = now, tasks = [] \<rparr>"

definition settle :: "scheduler \<Rightarrow> nat \<Rightarrow> acquire_outcome \<times> RateLimiter \<Rightarrow> scheduler" where
  "settle st t r = st\<lparr>lim := snd r, tasks := (tasks st)[t := taskOf (time st) (fst r)]\<rparr>"

fun step :: "int \<Rightarrow> scheduler \<Rightarrow> event \<Rightarrow> scheduler" where
  "step tz st CallAcquire =
     (let t = length (tasks st)
      in settle (st\<lparr>tasks := tasks st @ [InQueue]\<rparr>) t (acquire t tz (time st) (lim st)))"
| "step tz st CallRelease =
     (case release (lim st) of
        (None, s) \<Rightarrow> st\<lparr>lim := s\<rparr>
      | (Some t, s) \<Rightarrow> st\<lparr>lim := s, tasks := (tasks st)[t := Woken]\<rparr>)"
| "step tz st (Resume t) =
     (if t < length (tasks st)
      then (case tasks st ! t of
              Woken \<Rightarrow> settle st t (slotLoop t (time st) (lim st))
            | Asleep deadline \<Rightarrow>
                (if deadline \<le> time st
                 then settle st t (resumeAfterSleep tz (time st) (lim st))
                 else st)
            | _ \<Rightarrow> st)
      else st)"
| "step tz st (Advance ms) = st\<lparr>time := time st + int ms\<rparr>"

definition run :: "int \<Rightarrow> scheduler \<Rightarrow> event list \<Rightarrow> scheduler" where
  "run tz st es = foldl (step tz) st es"

section \<open>The OAuth client\<close>

record OAuthToken =
  access_token :: string
  token_type :: string
  expires_in :: int
  refresh_token :: "string option"

datatype OAuthError =
  OAuthError (oauthMessage: string) (oauthStatus: "int option") (errorCode: "string option")

text \<open>
  \<open>refreshPromise\<close> holds the promise of the acquisition in flight. Promises are numbered
  in the order in which \<open>acquireToken\<close> creates them.
\<close>

record OAuthClient =
  token :: "OAuthToken option"
  tokenExpiresAt :: int
  refreshPromise :: "nat option"

definition REFRESH_BUFFER_MS :: int where
  "REFRESH_BUFFER_MS = 5 * 60 * 1000"

definition newOAuthClient :: OAuthClient where
  "newOAuthClient = \<lparr> token = None, tokenExpiresAt = 0, refreshPromise = None \<rparr>"

text \<open>
  What the token endpoint can answer: \<open>fetch\<close> rejects with a \<open>TypeError\<close>, the response
  is not ok and carries a text, the response is ok and its body decodes to a token, or
  the response is ok and decoding its body throws. The text of a failed response either
  cannot be read as a JSON object or is an object of which the code reads three fields.
\<close>

datatype error_text =
    NotJson
  | ErrorJson (error_description: "string option") (error_message: "string option")
      (error: "string option")

datatype token_reply =
    FetchRejects string
  | NotOk int error_text
  | Ok OAuthToken
  | BodyRejects string

text \<open>\<open>v || d\<close> for strings: \<open>v\<close> counts as true when it is there and not empty.\<close>

definition orElse :: "string option \<Rightarrow> string \<Rightarrow> string" where
  "orElse v d = (case v of None \<Rightarrow> d | Some x \<Rightarrow> if x = [] then d else x)"

text \<open>
  \<open>acquireToken\<close> from the arrival of the endpoint's answer on; \<open>now\<close> is the instant at
  which the body has been decoded.
\<close>

definition acquireToken :: "int \<Rightarrow> token_reply \<Rightarrow> OAuthClient \<Rightarrow> (OAuthError + string) \<times> OAuthClient" where
  "acquireToken now reply c =
     (case reply of
        NotOk status errorText \<Rightarrow>
          (let errorMessage = ''OAuth authentication failed: '' @ showInt status
           in case errorText of
                NotJson \<Rightarrow> (Inl (OAuthError errorMessage (Some status) None), c)
              | ErrorJson d m e \<Rightarrow>
                  (Inl (OAuthError (orElse d (orElse m errorMessage)) (Some status) e), c))
      | Ok tokenData \<Rightarrow>
          (Inr (access_token tokenData),
           c\<lparr>token := Some tokenData,
             tokenExpiresAt := now + expires_in tokenData * 1000\<rparr>)
      | FetchRejects m \<Rightarrow>
          (if includesStr m ''fetch''
           then (Inl (OAuthError
                   ''Failed to connect to OAuth server. Check your network connection.''
                   None None), c)
           else (Inl (OAuthError (''OAuth error: '' @ m) None None), c))
      | BodyRejects m \<Rightarrow> (Inl (OAuthError (''OAuth error: '' @ m) None None), c))"

text \<open>
  \<open>getAccessToken\<close> up to its \<open>await\<close>: the caller is handed the promise in flight, or the
  cached token, or the promise of the acquisition that it has just started (numbered
  \<open>fresh\<close>), whose request has then been sent.
\<close>

datatype token_outcome = Joined nat | Cached string | Started nat

definition getAccessToken :: "nat \<Rightarrow> int \<Rightarrow> OAuthClient \<Rightarrow> token_outcome \<times> OAuthClient" where
  "getAccessToken fresh now c =
     (case refreshPromise c of
        Some p \<Rightarrow> (Joined p, c)
      | None \<Rightarrow>
          (case token c of
             Some t \<Rightarrow>
               (if now < tokenExpiresAt c - REFRESH_BUFFER_MS
                then (Cached (access_token t), c)
                else (Started fresh, c\<lparr>refreshPromise := Some fresh\<rparr>))
           | None \<Rightarrow> (Started fresh, c\<lparr>refreshPromise := Some fresh\<rparr>)))"

text \<open>The \<open>finally\<close> block of \<open>getAccessToken\<close>, run by the caller that started the acquisition.\<close>

definition clearRefreshPromise :: "OAuthClient \<Rightarrow> OAuthClient" where
  "clearRefreshPromise c = c\<lparr>refreshPromise := None\<rparr>"

definition refreshToken :: "nat \<Rightarrow> int \<Rightarrow> OAuthClient \<Rightarrow> token_outcome \<times> OAuthClient" where
  "refreshToken fresh now c = getAccessToken fresh now (c\<lparr>token := None, tokenExpiresAt := 0\<rparr>)"

definition hasValidToken :: "int \<Rightarrow> OAuthClient \<Rightarrow> bool" where
  "hasValidToken now c = (token c \<noteq> None \<and> now < tokenExpiresAt c - REFRESH_BUFFER_MS)"

subsection \<open>Callers of the OAuth client interleaved by the event loop\<close>

text \<open>
  A history of the client is a sequence of atomic steps: a call of \<open>getAccessToken\<close> or of
  \<open>refreshToken\<close> up to its \<open>await\<close>, the arrival of the endpoint's answer for a pending
  acquisition (the rest of \<open>acquireToken\<close>), the \<open>finally\<close> block of the caller that
  started an acquisition once that acquisition has settled, and the passing of time.
  A caller is recorded with what its call answers: a value, or the outcome of a promise.
\<close>

datatype promise_state = Pending | Fulfilled string | Rejected OAuthError

record promise =
  settled :: promise_state
  cleared :: bool

datatype caller = Got string | Awaiting nat

datatype token_event = Get | Refresh | Reply nat token_reply | Finally nat | Tick nat

record token_system =
  client :: OAuthClient
  promises :: "promise list"
  callers :: "caller list"
  instant :: int

definition newTokenSystem :: "int \<Rightarrow> token_system" where
  "newTokenSystem now = \<lparr> client = newOAuthClient, promises = [], callers = [], instant = now \<rparr>"

definition enter :: "token_system \<Rightarrow> token_outcome \<times> OAuthClient \<Rightarrow> token_system" where
  "enter ts r =
     (case fst r of
        Cached v \<Rightarrow> ts\<lparr>client := snd r, callers := callers ts @ [Got v]\<rparr>
      | Joined p \<Rightarrow> ts\<lparr>client := snd r, callers := callers ts @ [Awaiting p]\<rparr>
      | Started p \<Rightarrow>
          ts\<lparr>client := snd r,
             promises := promises ts @ [\<lparr> settled = Pending, cleared = False \<rparr>],
             callers := callers ts @ [Awaiting p]\<rparr>)"

definition settlement :: "OAuthError + string \<Rightarrow> promise_state" where
  "settlement r = (case r of Inl e \<Rightarrow> Rejected e | Inr v \<Rightarrow> Fulfilled v)"

fun tokenStep :: "token_system \<Rightarrow> token_event \<Rightarrow> token_system" where
  "tokenStep ts Get = enter ts (getAccessToken (length (promises ts)) (instant ts) (client ts))"
| "tokenStep ts Refresh = enter ts (refreshToken (length (promises ts)) (instant ts) (client ts))"
| "tokenStep ts (Reply p reply) =
     (if p < length (promises ts) \<and> settled (promises ts ! p) = Pending
      then (case acquireToken (instant ts) reply (client ts) of
              (r, c) \<Rightarrow>
                ts\<lparr>client := c,
                   promises := (promises ts)[p := (promises ts ! p)\<lparr>settled := settlement r\<rparr>]\<rparr>)
      else ts)"
| "tokenStep ts (Finally p) =
     (if p < length (promises ts) \<and> settled (promises ts ! p) \<noteq> Pending
         \<and> \<not> cleared (promises ts ! p)
      then ts\<lparr>client := clearRefreshPromise (client ts),
              promises := (promises ts)[p := (promises ts ! p)\<lparr>cleared := True\<rparr>]\<rparr>
      else ts)"
| "tokenStep ts (Tick ms) = ts\<lparr>instant := instant ts + int ms\<rparr>"

definition tokenRun :: "token_system \<Rightarrow> token_event list \<Rightarrow> token_system" where
  "tokenRun ts es = foldl tokenStep ts es"

text \<open>The number of acquisitions in flight, and what a caller has received so far.\<close>

definition inFlight :: "token_system \<Rightarrow> nat" where
  "inFlight ts = length (filter (\<lambda>p. settled p = Pending) (promises ts))"

definition received :: "token_system \<Rightarrow> nat \<Rightarrow> promise_state" where
  "received ts i =
     (case callers ts ! i of
        Got v \<Rightarrow> Fulfilled v
      | Awaiting p \<Rightarrow> settled (promises ts ! p))"

text \<open>
  What holds of the client after every history: a promise whose starter has not yet run
  its \<open>finally\<close> block is the one in \<open>refreshPromise\<close>, and a pending promise is such a
  promise.
\<close>

definition tokenInv :: "token_system \<Rightarrow> bool" where
  "tokenInv ts =
     (\<forall>p < length (promises ts).
        (\<not> cleared (promises ts ! p) \<longrightarrow> refreshPromise (client ts) = Some p)
        \<and> (settled (promises ts ! p) = Pending \<longrightarrow> \<not> cleared (promises ts ! p)))"

section \<open>The HTTP client\<close>

record JsonApiError =
  detail :: "string option"
  title :: "string option"

text \<open>
  What \<open>response.json()\<close> gives, as far as the client tells bodies apart: decoding throws,
  or the value is an object with an array \<open>errors\<close> (\<open>isErrorResponse\<close>), or another object
  with a \<open>message\<close> (kept here as the string that \<open>String\<close> makes of it), or any other
  value, kept as its text.
\<close>

datatype decoded =
    Undecodable string
  | ErrorDocument "JsonApiError list"
  | MessageObject string
  | Document string

record Response =
  status :: int
  statusText :: string
  headers :: Headers
  body :: decoded

definition ok :: "Response \<Rightarrow> bool" where
  "ok response = (200 \<le> status response \<and> status response \<le> 299)"

definition extractErrorMessages :: "JsonApiError list \<Rightarrow> string list" where
  "extractErrorMessages errors =
     map (\<lambda>e. orElse (detail e) (orElse (title e) ''Unknown error'')) errors"

datatype PrimeApiError =
  PrimeApiError (message: string) (code: string) (statusCode: int)
    (details: "JsonApiError list option")

datatype error =
    RateLimit RateLimitError
  | Api PrimeApiError
  | TypeError string
  | SyntaxError string

text \<open>
  The message and the details that \<open>handleErrorResponse\<close> holds once its \<open>try\<close> block
  is over.
\<close>

definition errorMessage :: "Response \<Rightarrow> string" where
  "errorMessage response =
     (case body response of
        ErrorDocument errors \<Rightarrow> join ''; '' (extractErrorMessages errors)
      | MessageObject m \<Rightarrow> m
      | _ \<Rightarrow> ''Prime API error: '' @ showInt (status response) @ '' '' @ statusText response)"

definition errorDetails :: "Response \<Rightarrow> JsonApiError list option" where
  "errorDetails response =
     (case body response of
        ErrorDocument errors \<Rightarrow> Some errors
      | _ \<Rightarrow> None)"

definition handleErrorResponse :: "Response \<Rightarrow> error" where
  "handleErrorResponse response =
     (let status = status response;
          message = errorMessage response;
          details = errorDetails response
      in if status = 401 then
           Api (PrimeApiError ''Authentication failed. Check your OAuth credentials.''
                  ''UNAUTHORIZED'' status None)
         else if status = 403 then
           Api (PrimeApiError ''Permission denied for this operation.'' ''FORBIDDEN'' status None)
         else if status = 404 then
           Api (PrimeApiError ''Resource not found.'' ''NOT_FOUND'' status None)
         else if status = 422 then
           Api (PrimeApiError (''Validation failed: '' @ message) ''VALIDATION_ERROR'' status
                  details)
         else if status = 429 then
           (let retryAfter = get (headers response) ''retry-after'';
                retrySeconds = (case retryAfter of
                                  None \<Rightarrow> Num 60
                                | Some v \<Rightarrow> if v = [] then Num 60 else parseInt v)
            in RateLimit (RateLimitError
                 ''Prime API rate limit exceeded. Please wait before retrying.'' retrySeconds))
         else if status = 500 \<or> status = 502 \<or> status = 503 \<or> status = 504 then
           Api (PrimeApiError (''Server error: '' @ message) ''SERVER_ERROR'' status None)
         else
           Api (PrimeApiError message ''API_ERROR'' status details))"

subsection \<open>One call of \<open>request\<close>\<close>

text \<open>
  The remote service and the token endpoint are scripts: the \<open>k\<close>-th exchange of the call
  with each takes some milliseconds and ends with a reply. The world is the two shared
  objects, the clock, the number of exchanges begun with each peer, and a journal of the
  calls that this call makes on the limiter, on the OAuth client and on the network, which
  is there only to be spoken about.
\<close>

datatype fetch_reply = Rejects string | Responds Response

record PrimeRequestOptions =
  httpMethod :: string
  endpoint :: string
  query :: "(string \<times> string) list"
  payload :: "string option"
  retryOnAuthError :: "bool option"

datatype action =
    Acquire
  | Release
  | GetAccessToken
  | RefreshToken
  | TokenFetch
  | Fetch PrimeRequestOptions string

record services =
  zone :: int
  api :: "nat \<Rightarrow> nat \<times> fetch_reply"
  tokenEndpoint :: "nat \<Rightarrow> nat \<times> token_reply"

text \<open>
  While a caller is suspended in the limiter's queue, on the refill timer or on another
  caller's token acquisition, the other callers and the clock go on. An interlude is what
  the caller finds when it is resumed: the two shared objects as they then are, the
  milliseconds that have passed, and, for a caller that waited for another caller's
  acquisition, what that acquisition has settled with. Nothing is assumed of what the
  others have done. The world holds the interludes that are still to come; a caller that
  is suspended when none is left is followed no further. At an await on an exchange of its
  own the caller finds the shared objects as it left them.
\<close>

record interlude =
  limiterThen :: RateLimiter
  oauthThen :: OAuthClient
  elapsed :: nat
  settledWith :: "OAuthError + string"

record world =
  limiter :: RateLimiter
  oauth :: OAuthClient
  clock :: int
  fetches :: nat
  tokenFetches :: nat
  journal :: "action list"
  ahead :: "interlude list"

definition resumed :: "interlude \<Rightarrow> nat \<Rightarrow> interlude list \<Rightarrow> world \<Rightarrow> world" where
  "resumed i ms rest w =
     w\<lparr>limiter := limiterThen i, oauth := oauthThen i, clock := clock w + int ms,
       ahead := rest\<rparr>"

text \<open>
  A call either settles, with a value or an error, or is left suspended at one of its
  awaits: in the limiter's queue, on the refill timer, or on another caller's token
  acquisition, with no interlude left. What it does once it is resumed from there is not
  followed.
\<close>

datatype 'a outcome = Settled 'a | Suspended

datatype JsonApiResponse = NoContent | Content decoded

definition logged :: "action \<Rightarrow> world \<Rightarrow> world" where
  "logged a w = w\<lparr>journal := journal w @ [a]\<rparr>"

definition releaseSlot :: "world \<Rightarrow> world" where
  "releaseSlot w = logged Release (w\<lparr>limiter := snd (release (limiter w))\<rparr>)"

text \<open>
  The rest of \<open>acquire\<close> for a caller that its call has left suspended. A waiter whose
  callback has been called tests the ceiling again, and may queue again; a sleeper whose
  timer has fired, not before the time it asked for, refills and tests the allowance
  again, and may sleep again. The daily limit is not tested again.
\<close>

function awaitAcquire :: "services \<Rightarrow> nat \<Rightarrow> acquire_outcome \<Rightarrow> world \<Rightarrow> acquire_outcome \<times> world" where
  "awaitAcquire sv tid out w =
     (case ahead w of
        [] \<Rightarrow> (out, w)
      | i # rest \<Rightarrow>
          (case out of
             AwaitSlot \<Rightarrow>
               (let w1 = resumed i (elapsed i) rest w
                in case slotLoop tid (clock w1) (limiter w1) of
                     (out', l) \<Rightarrow> awaitAcquire sv tid out' (w1\<lparr>limiter := l\<rparr>))
           | AwaitRefill ms \<Rightarrow>
               (let w1 = resumed i (max (nat ms) (elapsed i)) rest w
                in case resumeAfterSleep (zone sv) (clock w1) (limiter w1) of
                     (out', l) \<Rightarrow> awaitAcquire sv tid out' (w1\<lparr>limiter := l\<rparr>))
           | _ \<Rightarrow> (out, w)))"
  by pat_completeness auto
termination
  by (relation "measure (\<lambda>(sv, tid, out, w). length (ahead w))") (auto simp: resumed_def)

declare awaitAcquire.simps [simp del]

text \<open>
  \<open>await this.rateLimiter.acquire()\<close>, line 58 of \<open>request\<close>. The call of \<open>acquire\<close> runs to
  its first suspension or to its end; then \<open>request\<close> itself yields, at its first \<open>await\<close>,
  and control goes back to the calling frame: \<open>onYield\<close> is what that frame still does
  synchronously. After that the caller waits until \<open>acquire\<close> has returned or thrown.
\<close>

definition enterLimiter :: "services \<Rightarrow> nat \<Rightarrow> (world \<Rightarrow> world) \<Rightarrow> world \<Rightarrow> acquire_outcome \<times> world" where
  "enterLimiter sv tid onYield w =
     (case acquire tid (zone sv) (clock w) (limiter w) of
        (out, l) \<Rightarrow> awaitAcquire sv tid out (onYield (logged Acquire (w\<lparr>limiter := l\<rparr>))))"

text \<open>
  \<open>await getAccessToken()\<close> (\<open>forced = False\<close>) or \<open>await refreshToken()\<close>. An acquisition
  that the caller starts is answered by the endpoint's next reply, after which the
  caller's \<open>finally\<close> block runs. A caller that is handed the promise of an acquisition in
  flight is suspended until that acquisition has settled.
\<close>

definition awaitToken :: "services \<Rightarrow> bool \<Rightarrow> world \<Rightarrow> (OAuthError + string) outcome \<times> world" where
  "awaitToken sv forced w =
     (let w0 = logged (if forced then RefreshToken else GetAccessToken) w
      in case (if forced then refreshToken (tokenFetches w0) (clock w0) (oauth w0)
               else getAccessToken (tokenFetches w0) (clock w0) (oauth w0)) of
           (Cached v, c) \<Rightarrow> (Settled (Inr v), w0\<lparr>oauth := c\<rparr>)
         | (Joined p, c) \<Rightarrow>
             (case ahead w0 of
                [] \<Rightarrow> (Suspended, w0\<lparr>oauth := c\<rparr>)
              | i # rest \<Rightarrow> (Settled (settledWith i), resumed i (elapsed i) rest w0))
         | (Started p, c) \<Rightarrow>
             (case tokenEndpoint sv (tokenFetches w0) of
                (latency, reply) \<Rightarrow>
                  (let now = clock w0 + int latency
                   in case acquireToken now reply c of
                        (r, c') \<Rightarrow>
                          (Settled r,
                           logged TokenFetch
                             (w0\<lparr>oauth := clearRefreshPromise c', clock := now,
                                 tokenFetches := tokenFetches w0 + 1\<rparr>)))))"

text \<open>The \<open>catch\<close> block of \<open>request\<close> applied to an \<open>OAuthError\<close>.\<close>

definition authError :: "OAuthError \<Rightarrow> error" where
  "authError e =
     Api (PrimeApiError (oauthMessage e) ''AUTH_ERROR''
            (case oauthStatus e of None \<Rightarrow> 401 | Some n \<Rightarrow> if n = 0 then 401 else n) None)"

text \<open>
  Lines 64 to 77 of \<open>request\<close>: the call of \<open>fetch\<close> with the access token and, when a
  response has come, \<open>updateFromHeaders\<close>.
\<close>

definition exchange :: "services \<Rightarrow> PrimeRequestOptions \<Rightarrow> string \<Rightarrow> world \<Rightarrow> fetch_reply \<times> world" where
  "exchange sv options accessToken w =
     (case api sv (fetches w) of
        (latency, reply) \<Rightarrow>
          (let w3 = logged (Fetch options accessToken)
                      (w\<lparr>clock := clock w + int latency, fetches := fetches w + 1\<rparr>)
           in case reply of
                Rejects m \<Rightarrow> (reply, w3)
              | Responds response \<Rightarrow>
                  (reply, w3\<lparr>limiter := updateFromHeaders (headers response) (limiter w3)\<rparr>)))"

text \<open>
  Lines 86 to 108 of \<open>request\<close>, for a response that is not retried, followed by the
  \<open>finally\<close> block.
\<close>

definition conclude :: "Response \<Rightarrow> world \<Rightarrow> (error + JsonApiResponse) outcome \<times> world" where
  "conclude response w =
     (if \<not> ok response
      then (Settled (Inl (handleErrorResponse response)), releaseSlot w)
      else if status response = 204
      then (Settled (Inr NoContent), releaseSlot w)
      else (case body response of
              Undecodable m \<Rightarrow> (Settled (Inl (SyntaxError m)), releaseSlot w)
            | ErrorDocument errors \<Rightarrow>
                (Settled (Inl (Api (PrimeApiError
                   (join ''; '' (extractErrorMessages errors))
                   ''VALIDATION_ERROR'' (status response) (Some errors)))),
                 releaseSlot w)
            | data \<Rightarrow> (Settled (Inr (Content data)), releaseSlot w)))"

text \<open>
  \<open>request\<close>. A top-level call is made with \<open>onYield = id\<close>: nothing is left to do in the
  calling frame when the call yields. The call in line 83 is made with
  \<open>onYield = releaseSlot\<close>: its caller returns the promise without awaiting it, so the
  caller's \<open>finally\<close> block runs as soon as the inner call has yielded, and only once.
\<close>

function request ::
  "services \<Rightarrow> nat \<Rightarrow> (world \<Rightarrow> world) \<Rightarrow> PrimeRequestOptions \<Rightarrow> world
     \<Rightarrow> (error + JsonApiResponse) outcome \<times> world" where
  "request sv tid onYield options w =
     (case enterLimiter sv tid onYield w of
        (Thrown e, w1) \<Rightarrow> (Settled (Inl (RateLimit e)), w1)
      | (AwaitSlot, w1) \<Rightarrow> (Suspended, w1)
      | (AwaitRefill ms, w1) \<Rightarrow> (Suspended, w1)
      | (Admitted, w1) \<Rightarrow>
          (case awaitToken sv False w1 of
             (Suspended, w2) \<Rightarrow> (Suspended, w2)
           | (Settled (Inl e), w2) \<Rightarrow> (Settled (Inl (authError e)), releaseSlot w2)
           | (Settled (Inr accessToken), w2) \<Rightarrow>
               (case exchange sv options accessToken w2 of
                  (Rejects m, w3) \<Rightarrow> (Settled (Inl (TypeError m)), releaseSlot w3)
                | (Responds response, w4) \<Rightarrow>
                    (if status response = 401 \<and> retryOnAuthError options \<noteq> Some False
                     then (case awaitToken sv True w4 of
                             (Suspended, w5) \<Rightarrow> (Suspended, w5)
                           | (Settled (Inl e), w5) \<Rightarrow>
                               (Settled (Inl (authError e)), releaseSlot w5)
                           | (Settled (Inr fresh), w5) \<Rightarrow>
                               request sv (Suc tid) releaseSlot
                                 (options\<lparr>retryOnAuthError := Some False\<rparr>) w5)
                     else conclude response w4))))"
  by pat_completeness auto
termination
  by (relation "measure (\<lambda>(sv, tid, onYield, options, w).
        if retryOnAuthError options = Some False then 0 else 1)") auto

declare request.simps [simp del]

section \<open>Concrete states and histories\<close>

text \<open>
  A limiter built at instant 0 in UTC to which a response has then reported a negative
  per-minute allowance.
\<close>

definition overdrawn :: RateLimiter where
  "overdrawn = updateFromHeaders [(''x-ratelimit-minute-remaining'', ''-5'')] (newRateLimiter 0 0)"

text \<open>
  Two responses without a body: a 429 with given headers, and a 501.
\<close>

definition rateLimited :: "Headers \<Rightarrow> Response" where
  "rateLimited h =
     \<lparr> status = 429, statusText = ''Too Many Requests'', headers = h,
       body = Undecodable ''Unexpected end of JSON input'' \<rparr>"

definition notImplemented :: Response where
  "notImplemented =
     \<lparr> status = 501, statusText = ''Not Implemented'', headers = [],
       body = Undecodable ''Unexpected end of JSON input'' \<rparr>"


definition getJobs :: PrimeRequestOptions where
  "getJobs = \<lparr> httpMethod = ''GET'', endpoint = ''/jobs'', query = [], payload = None,
               retryOnAuthError = None \<rparr>"

definition freshWorld :: world where
  "freshWorld = \<lparr> limiter = newRateLimiter 0 0, oauth = newOAuthClient, clock = 0, fetches = 0,
                   tokenFetches = 0, journal = [], ahead = [] \<rparr>"

text \<open>The token of the scenario in the specification: it expires after one second.\<close>

definition abc :: OAuthToken where
  "abc = \<lparr> access_token = ''abc'', token_type = ''Bearer'', expires_in = 1,
           refresh_token = None \<rparr>"

text \<open>
  A service that answers every call with 401 and a token endpoint that hands out a token
  good for one hour each time, \<open>first\<close> and then \<open>second\<close>.
\<close>

definition unauthorized :: Response where
  "unauthorized =
     \<lparr> status = 401, statusText = ''Unauthorized'', headers = [],
       body = Undecodable ''Unexpected end of JSON input'' \<rparr>"

definition hourToken :: "string \<Rightarrow> OAuthToken" where
  "hourToken v =
     \<lparr> access_token = v, token_type = ''Bearer'', expires_in = 3600, refresh_token = None \<rparr>"

definition rejecting :: services where
  "rejecting =
     \<lparr> zone = 0, api = (\<lambda>k. (0, Responds unauthorized)),
       tokenEndpoint = (\<lambda>k. (0, Ok (hourToken (if k = 0 then ''first'' else ''second'')))) \<rparr>"



text \<open>
  A history of the limiter: sixty calls of \<open>acquire\<close>, each released at once, all within
  the minute; then six calls of \<open>acquire\<close> together; a minute later their six timers fire.
\<close>

definition overAdmission :: "event list" where
  "overAdmission =
     (concat (replicate 60 [CallAcquire, CallRelease])
        @ [CallAcquire, CallAcquire, CallAcquire, CallAcquire, CallAcquire, CallAcquire,
           Advance 60000])
     @ [Resume 60, Resume 61, Resume 62, Resume 63, Resume 64, Resume 65]"

section \<open>Properties of the parsing and printing of numbers\<close>

lemma digitsVal_snoc: "digitsVal (ds @ [c]) = 10 * digitsVal ds + digitVal c"
  by (simp add: digitsVal_def)

lemma isDigit_digit: "(k::nat) < 10 \<Longrightarrow> isDigit (char_of (48 + k))"
  by (simp add: isDigit_def)

lemma digitVal_digit: "(k::nat) < 10 \<Longrightarrow> digitVal (char_of (48 + k)) = int k"
  by (simp add: digitVal_def)

lemma showNat_digits: "list_all isDigit (showNat n)"
proof (induction n rule: showNat.induct)
  case (1 n)
  show ?case
  proof (cases "n < 10")
    case True
    then show ?thesis by (subst showNat.simps) (simp add: isDigit_digit)
  next
    case False
    then have "list_all isDigit (showNat (n div 10))" using 1 by simp
    moreover have "isDigit (char_of (48 + n mod 10))" by (rule isDigit_digit) simp
    ultimately show ?thesis using False by (subst showNat.simps) simp
  qed
qed

lemma showNat_value: "digitsVal (showNat n) = int n"
proof (induction n rule: showNat.induct)
  case (1 n)
  show ?case
  proof (cases "n < 10")
    case True
    then show ?thesis by (subst showNat.simps) (simp add: digitsVal_def digitVal_digit)
  next
    case False
    then have "digitsVal (showNat (n div 10)) = int (n div 10)" using 1 by simp
    moreover have "digitVal (char_of (48 + n mod 10)) = int (n mod 10)"
      by (rule digitVal_digit) simp
    ultimately show ?thesis using False
      by (subst showNat.simps) (simp add: digitsVal_snoc zdiv_int zmod_int)
  qed
qed

lemma showNat_nonempty: "showNat n \<noteq> []"
  by (subst showNat.simps) simp

lemma digit_not_space: "isDigit c \<Longrightarrow> \<not> isStrWhiteSpace c"
  by (auto simp: isDigit_def isStrWhiteSpace_def)

lemma digit_not_sign: "isDigit c \<Longrightarrow> c \<noteq> CHR ''-'' \<and> c \<noteq> CHR ''+''"
  by (auto simp: isDigit_def)

lemma takeWhile_all: "list_all P xs \<Longrightarrow> takeWhile P xs = xs"
  by (induction xs) auto

lemma parseInt_digits:
  assumes "list_all isDigit ds" "ds \<noteq> []"
  shows "parseInt ds = Num (digitsVal ds)"
proof -
  obtain c r where ds: "ds = c # r" using assms(2) by (cases ds) auto
  have c: "isDigit c" using assms(1) ds by simp
  have "dropWhile isStrWhiteSpace ds = ds" using digit_not_space [OF c] ds by simp
  moreover have "stripSign ds = (1, ds)" using digit_not_sign [OF c] ds by simp
  ultimately show ?thesis using assms by (simp add: parseInt_def takeWhile_all)
qed

lemma parseInt_minus_digits:
  assumes "list_all isDigit ds" "ds \<noteq> []"
  shows "parseInt (CHR ''-'' # ds) = Num (- digitsVal ds)"
proof -
  have "\<not> isStrWhiteSpace CHR ''-''" by (simp add: isStrWhiteSpace_def)
  then show ?thesis using assms by (simp add: parseInt_def takeWhile_all)
qed

text \<open>
  Every integer can be reported: the decimal text of an integer parses back to it.
\<close>

lemma parseInt_showInt: "parseInt (showInt i) = Num i"
proof (cases "i < 0")
  case True
  then show ?thesis
    by (simp add: showInt_def parseInt_minus_digits showNat_digits showNat_nonempty showNat_value)
next
  case False
  then show ?thesis
    by (simp add: showInt_def parseInt_digits showNat_digits showNat_nonempty showNat_value)
qed

lemma parseInt_minus_5: "parseInt ''-5'' = Num (- 5)"
  by (simp add: parseInt_def isStrWhiteSpace_def isDigit_def digitsVal_def digitVal_def)

lemma parseInt_10: "parseInt ''10'' = Num 10"
  by (simp add: parseInt_def isStrWhiteSpace_def isDigit_def digitsVal_def digitVal_def)

lemma parseInt_4500: "parseInt ''4500'' = Num 4500"
  by (simp add: parseInt_def isStrWhiteSpace_def isDigit_def digitsVal_def digitVal_def)

lemma parseInt_soon: "parseInt ''soon'' = NaN"
  by (simp add: parseInt_def isStrWhiteSpace_def isDigit_def)

section \<open>Properties of the rate limiter\<close>

subsection \<open>The refill\<close>

lemma refill_idle:
  "now < dailyReset s \<Longrightarrow> now - lastRefill s < refillInterval \<Longrightarrow> refillTokens tz now s = s"
  by (simp add: refillTokens_def Let_def)

lemma overdrawn_eq:
  "overdrawn = \<lparr> tokens = - 5, lastRefill = 0, dailyCount = 0,
       dailyReset = 86400000, concurrent = 0, waitingQueue = [] \<rparr>"
  by (simp add: overdrawn_def updateFromHeaders_def get_def parseInt_minus_5 newRateLimiter_def
      getNextMidnight_def msPerDay_def maxTokens_def)

text \<open>
  C4, as stated, fails. The refill adds 60 per elapsed interval to the allowance that is
  there and caps the sum; it does not set the allowance to the cap. An allowance that a
  response has made negative (\<open>overdrawn\<close>, at -5) is therefore at 55, not at 60, one full
  interval later.
\<close>

theorem refill_below_cap_counterexample:
  "refillInterval \<le> 60000 - lastRefill overdrawn
   \<and> tokens (refillTokens 0 60000 overdrawn) \<noteq> maxTokens"
  by (simp add: overdrawn_eq refillTokens_def refillInterval_def maxTokens_def)

text \<open>
  C4, amended. When at least one full refill interval has elapsed since the last refill,
  the allowance becomes the smaller of the cap and the old allowance plus 60 for each
  whole interval elapsed; it never exceeds the cap, however long the gap, and it is
  exactly the cap (60) whenever the old allowance was not negative. When less than one
  interval has elapsed the allowance is unchanged.
\<close>

theorem refill_restores_cap:
  "(refillInterval \<le> now - lastRefill s \<longrightarrow>
      tokens (refillTokens tz now s) =
        min maxTokens (tokens s + ((now - lastRefill s) div refillInterval) * maxTokens)
      \<and> tokens (refillTokens tz now s) \<le> maxTokens
      \<and> (0 \<le> tokens s \<longrightarrow> tokens (refillTokens tz now s) = maxTokens))
   \<and> (now - lastRefill s < refillInterval \<longrightarrow> tokens (refillTokens tz now s) = tokens s)"
proof -
  have "maxTokens \<le> tokens s + ((now - lastRefill s) div refillInterval) * maxTokens"
    if "refillInterval \<le> now - lastRefill s" "0 \<le> tokens s"
  proof -
    have "1 \<le> (now - lastRefill s) div refillInterval"
      using that(1) by (simp add: refillInterval_def pos_imp_zdiv_pos_iff)
    then have "maxTokens \<le> ((now - lastRefill s) div refillInterval) * maxTokens"
      by (simp add: maxTokens_def)
    then show ?thesis using that(2) by simp
  qed
  then show ?thesis
    by (auto simp: refillTokens_def Let_def)
qed

theorem refill_restores_cap_witness:
  "tokens (refillTokens 0 200000 (newRateLimiter 0 0\<lparr>tokens := 7\<rparr>)) = 60
   \<and> tokens (refillTokens 0 59999 (newRateLimiter 0 0\<lparr>tokens := 7\<rparr>)) = 7"
  using refill_restores_cap [of 200000 "newRateLimiter 0 0\<lparr>tokens := 7\<rparr>" 0]
        refill_restores_cap [of 59999 "newRateLimiter 0 0\<lparr>tokens := 7\<rparr>" 0]
  by (simp add: newRateLimiter_def refillInterval_def maxTokens_def)

subsection \<open>The in-flight count\<close>

lemma run_append: "run tz st (xs @ ys) = run tz (run tz st xs) ys"
  by (simp add: run_def)

lemma run_Cons: "run tz st (e # es) = run tz (step tz st e) es"
  by (simp add: run_def)

lemma run_Nil: "run tz st [] = st"
  by (simp add: run_def)

lemma refillTokens_concurrent: "concurrent (refillTokens tz now s) = concurrent s"
  by (simp add: refillTokens_def Let_def)

text \<open>
  The in-flight count is never negative, whatever the history, also when \<open>release\<close> is
  called more often than \<open>acquire\<close> has returned.
\<close>

lemma step_concurrent_nonneg:
  "0 \<le> concurrent (lim st) \<Longrightarrow> 0 \<le> concurrent (lim (step tz st e))"
  by (cases e)
     (auto simp: settle_def acquire_def slotLoop_def tokenLoop_def resumeAfterSleep_def
        release_def refillTokens_concurrent Let_def
      split: list.splits task.splits)

lemma concurrent_never_negative: "0 \<le> concurrent (lim (run tz (newScheduler tz now) es))"
proof -
  have "0 \<le> concurrent (lim st) \<Longrightarrow> 0 \<le> concurrent (lim (run tz st es))" for st
    unfolding run_def by (induction es arbitrary: st) (simp_all add: step_concurrent_nonneg)
  then show ?thesis by (simp add: newScheduler_def newRateLimiter_def)
qed

text \<open>
  Every step but one keeps the count within the ceiling: a call of \<open>acquire\<close> and the
  resumption of a waiter from the queue test the ceiling right before they count. The
  resumption of a caller that slept on the refill timer does not.
\<close>

lemma step_concurrent_bounded:
  assumes "concurrent (lim st) \<le> maxConcurrent"
    and "\<And>t d. e = Resume t \<Longrightarrow> t < length (tasks st) \<Longrightarrow> tasks st ! t \<noteq> Asleep d"
  shows "concurrent (lim (step tz st e)) \<le> maxConcurrent"
  using assms
  by (cases e)
     (auto simp: settle_def acquire_def slotLoop_def tokenLoop_def release_def
        refillTokens_concurrent maxConcurrent_def Let_def
      split: list.splits task.splits)

lemma cycle_step:
  assumes "0 < tokens (lim st)" "concurrent (lim st) = 0" "waitingQueue (lim st) = []"
    "dailyCount (lim st) < dailyLimit" "time st < dailyReset (lim st)"
    "time st - lastRefill (lim st) < refillInterval"
  shows "step tz (step tz st CallAcquire) CallRelease
         = st\<lparr>lim := (lim st)\<lparr>tokens := tokens (lim st) - 1, dailyCount := dailyCount (lim st) + 1\<rparr>,
               tasks := tasks st @ [Holding]\<rparr>"
  using assms
  by (simp add: acquire_def refill_idle slotLoop_def tokenLoop_def settle_def taskOf_def
      release_def maxConcurrent_def Let_def)

lemma cycles:
  assumes "int n \<le> tokens (lim st)" "concurrent (lim st) = 0" "waitingQueue (lim st) = []"
    "dailyCount (lim st) + int n \<le> dailyLimit" "time st < dailyReset (lim st)"
    "time st - lastRefill (lim st) < refillInterval"
  shows "run tz st (concat (replicate n [CallAcquire, CallRelease]))
         = st\<lparr>lim := (lim st)\<lparr>tokens := tokens (lim st) - int n, dailyCount := dailyCount (lim st) + int n\<rparr>,
               tasks := tasks st @ replicate n Holding\<rparr>"
  using assms
proof (induction n arbitrary: st)
  case 0
  then show ?case by (simp add: run_def)
next
  case (Suc n)
  let ?st1 = "st\<lparr>lim := (lim st)\<lparr>tokens := tokens (lim st) - 1, dailyCount := dailyCount (lim st) + 1\<rparr>,
               tasks := tasks st @ [Holding]\<rparr>"
  have s1: "step tz (step tz st CallAcquire) CallRelease = ?st1"
    using Suc.prems by (intro cycle_step) auto
  have "run tz st (concat (replicate (Suc n) [CallAcquire, CallRelease]))
        = run tz ?st1 (concat (replicate n [CallAcquire, CallRelease]))"
    by (simp add: run_def s1 del: step.simps)
  also have "\<dots> = ?st1\<lparr>lim := (lim ?st1)\<lparr>tokens := tokens (lim ?st1) - int n, dailyCount := dailyCount (lim ?st1) + int n\<rparr>,
               tasks := tasks ?st1 @ replicate n Holding\<rparr>"
    using Suc.prems by (intro Suc.IH) auto
  finally show ?case by (simp add: replicate_append_same)
qed

lemma drained: "run 0 (newScheduler 0 0) (concat (replicate 60 [CallAcquire, CallRelease]))
   = \<lparr> lim = \<lparr> tokens = 0, lastRefill = 0, dailyCount = 60, dailyReset = 86400000, concurrent = 0, waitingQueue = [] \<rparr>,
       time = 0, tasks = replicate 60 Holding \<rparr>"
  by (subst cycles)
     (simp_all add: newScheduler_def newRateLimiter_def maxTokens_def dailyLimit_def
        getNextMidnight_def msPerDay_def refillInterval_def)


lemma call_when_dry:
  assumes "tokens (lim st) = 0" "concurrent (lim st) < maxConcurrent"
    "dailyCount (lim st) < dailyLimit" "time st < dailyReset (lim st)"
    "time st = lastRefill (lim st)"
  shows "step tz st CallAcquire = st\<lparr>tasks := tasks st @ [Asleep (time st + refillInterval)]\<rparr>"
  using assms
  by (simp add: acquire_def refill_idle slotLoop_def tokenLoop_def settle_def taskOf_def
      refillInterval_def Let_def)

lemma asleep6: "run 0 (newScheduler 0 0) (concat (replicate 60 [CallAcquire, CallRelease]) @
     [CallAcquire, CallAcquire, CallAcquire, CallAcquire, CallAcquire, CallAcquire, Advance 60000])
   = \<lparr> lim = \<lparr> tokens = 0, lastRefill = 0, dailyCount = 60, dailyReset = 86400000, concurrent = 0, waitingQueue = [] \<rparr>,
       time = 60000, tasks = replicate 60 Holding @ [Asleep 60000, Asleep 60000, Asleep 60000, Asleep 60000, Asleep 60000, Asleep 60000] \<rparr>"
  unfolding run_append drained
  by (simp add: run_Cons run_Nil call_when_dry maxConcurrent_def dailyLimit_def refillInterval_def
     del: step.simps(1))


lemma resume_sleeper:
  assumes "t < length (tasks st)" "tasks st ! t = Asleep d" "d \<le> time st"
    "0 < tokens (refillTokens tz (time st) (lim st))"
  shows "step tz st (Resume t) =
         st\<lparr>lim := (refillTokens tz (time st) (lim st))
                   \<lparr>tokens := tokens (refillTokens tz (time st) (lim st)) - 1,
                    dailyCount := dailyCount (refillTokens tz (time st) (lim st)) + 1,
                    concurrent := concurrent (refillTokens tz (time st) (lim st)) + 1\<rparr>,
             tasks := (tasks st)[t := Holding]\<rparr>"
  using assms by (simp add: resumeAfterSleep_def tokenLoop_def settle_def taskOf_def)

lemma refill_minute:
  "refillTokens 0 60000 \<lparr> tokens = 0, lastRefill = 0, dailyCount = 60, dailyReset = 86400000, concurrent = 0, waitingQueue = [] \<rparr>
   = \<lparr> tokens = 60, lastRefill = 60000, dailyCount = 60, dailyReset = 86400000, concurrent = 0, waitingQueue = [] \<rparr>"
  by (simp add: refillTokens_def refillInterval_def maxTokens_def)

lemma woken6: "run 0 (newScheduler 0 0) overAdmission
   = \<lparr> lim = \<lparr> tokens = 54, lastRefill = 60000, dailyCount = 66, dailyReset = 86400000, concurrent = 6, waitingQueue = [] \<rparr>,
       time = 60000, tasks = replicate 60 Holding @ [Holding, Holding, Holding, Holding, Holding, Holding] \<rparr>"
  unfolding overAdmission_def
  apply (subst run_append)
  unfolding asleep6
  by (simp add: run_Cons run_Nil resume_sleeper refill_minute refill_idle refillInterval_def
      nth_append list_update_append del: step.simps)

text \<open>
  C2 at the history \<open>overAdmission\<close>. The six callers find no per-minute allowance and an
  in-flight count of 0, pass the test of the ceiling and sleep; when their timers fire
  each one refills, finds allowance and counts itself in without testing the ceiling
  again. The in-flight count is then 6, above the ceiling of 5 that C2 says is never
  exceeded.
\<close>

theorem sleepers_overshoot_ceiling:
  "concurrent (lim (run 0 (newScheduler 0 0) overAdmission)) = 6 \<and> maxConcurrent = 5"
  by (simp add: woken6 maxConcurrent_def)

subsection \<open>The daily limit\<close>

lemma awaitAcquire_Thrown: "awaitAcquire sv tid (Thrown e) w = (Thrown e, w)"
  by (subst awaitAcquire.simps) (simp split: list.splits)

lemma awaitAcquire_Admitted: "awaitAcquire sv tid Admitted w = (Admitted, w)"
  by (subst awaitAcquire.simps) (simp split: list.splits)

lemma awaitAcquire_unresumed: "ahead w = [] \<Longrightarrow> awaitAcquire sv tid out w = (out, w)"
  by (subst awaitAcquire.simps) simp






subsection \<open>Hints from the response headers\<close>

text \<open>
  C5. Whatever the local state, a per-minute header that parses to the integer \<open>m\<close> sets
  the per-minute allowance to the smaller of \<open>m\<close> and the local allowance, so it never
  raises it; a daily header that parses to \<open>d\<close> sets the daily count to the daily limit
  less \<open>d\<close>. Every integer can be reported so: the same holds of the headers that carry
  the decimal text of any integers \<open>i\<close> and \<open>j\<close>.
\<close>

theorem updateFromHeaders_min:
  "(get h ''x-ratelimit-minute-remaining'' = Some a \<and> parseInt a = Num m \<longrightarrow>
      tokens (updateFromHeaders h s) = min m (tokens s)
      \<and> tokens (updateFromHeaders h s) \<le> tokens s)
   \<and> (get h ''x-ratelimit-day-remaining'' = Some b \<and> parseInt b = Num d \<longrightarrow>
      dailyCount (updateFromHeaders h s) = dailyLimit - d)
   \<and> (get h ''x-ratelimit-minute-remaining'' = Some (showInt i) \<longrightarrow>
      tokens (updateFromHeaders h s) = min i (tokens s))
   \<and> (get h ''x-ratelimit-day-remaining'' = Some (showInt j) \<longrightarrow>
      dailyCount (updateFromHeaders h s) = dailyLimit - j)"
  by (auto simp: updateFromHeaders_def Let_def parseInt_showInt
      split: option.splits number.splits)

theorem updateFromHeaders_min_witness:
  "tokens (updateFromHeaders
      [(''x-ratelimit-minute-remaining'', ''10''), (''x-ratelimit-day-remaining'', ''4500'')]
      (newRateLimiter 0 0\<lparr>tokens := 30\<rparr>)) = 10
   \<and> dailyCount (updateFromHeaders
      [(''x-ratelimit-minute-remaining'', ''10''), (''x-ratelimit-day-remaining'', ''4500'')]
      (newRateLimiter 0 0\<lparr>tokens := 30\<rparr>)) = 500"
  using updateFromHeaders_min
    [where h = "[(''x-ratelimit-minute-remaining'', ''10''), (''x-ratelimit-day-remaining'', ''4500'')]"
      and a = "''10''" and m = 10 and s = "newRateLimiter 0 0\<lparr>tokens := 30\<rparr>"
      and b = "''4500''" and d = 4500]
  by (simp add: get_def parseInt_10 parseInt_4500 dailyLimit_def)

text \<open>
  C10. A per-minute header that is absent or parses to \<open>NaN\<close> leaves the per-minute
  allowance as it was, and likewise the daily header and the daily count; and whatever
  the headers, \<open>updateFromHeaders\<close> leaves the in-flight count, the two refill instants
  and the waiter queue as they were.
\<close>

theorem updateFromHeaders_frame:
  "((get h ''x-ratelimit-minute-remaining'' = None
       \<or> (\<exists>a. get h ''x-ratelimit-minute-remaining'' = Some a \<and> parseInt a = NaN)) \<longrightarrow>
      tokens (updateFromHeaders h s) = tokens s)
   \<and> ((get h ''x-ratelimit-day-remaining'' = None
       \<or> (\<exists>b. get h ''x-ratelimit-day-remaining'' = Some b \<and> parseInt b = NaN)) \<longrightarrow>
      dailyCount (updateFromHeaders h s) = dailyCount s)
   \<and> concurrent (updateFromHeaders h s) = concurrent s
   \<and> lastRefill (updateFromHeaders h s) = lastRefill s
   \<and> dailyReset (updateFromHeaders h s) = dailyReset s
   \<and> waitingQueue (updateFromHeaders h s) = waitingQueue s"
  by (auto simp: updateFromHeaders_def Let_def split: option.splits number.splits)

theorem updateFromHeaders_frame_witness:
  "updateFromHeaders [(''x-ratelimit-minute-remaining'', ''soon'')] (newRateLimiter 0 0)
     = newRateLimiter 0 0"
  using updateFromHeaders_frame
    [of "[(''x-ratelimit-minute-remaining'', ''soon'')]" "newRateLimiter 0 0"]
  by (simp add: get_def parseInt_soon)

section \<open>Properties of the error classification\<close>

lemma parseInt_date: "parseInt ''Wed, 21 Oct 2015 07:28:00 GMT'' = NaN"
  by (simp add: parseInt_def isStrWhiteSpace_def isDigit_def)

lemma handleErrorResponse_429:
  "status r = 429 \<Longrightarrow>
   handleErrorResponse r =
     RateLimit (RateLimitError ''Prime API rate limit exceeded. Please wait before retrying.''
       (case get (headers r) ''retry-after'' of
          None \<Rightarrow> Num 60
        | Some v \<Rightarrow> if v = [] then Num 60 else parseInt v))"
  by (simp add: handleErrorResponse_def Let_def)

text \<open>
  The two parts of C6 that hold: without a \<open>Retry-After\<close> header the error carries 60, and
  with one that parses to an integer it carries that integer.
\<close>

lemma retry_after_absent:
  "status r = 429 \<Longrightarrow> get (headers r) ''retry-after'' = None \<Longrightarrow>
   handleErrorResponse r =
     RateLimit (RateLimitError ''Prime API rate limit exceeded. Please wait before retrying.''
       (Num 60))"
  by (simp add: handleErrorResponse_429)

lemma retry_after_integer:
  "status r = 429 \<Longrightarrow> get (headers r) ''retry-after'' = Some v \<Longrightarrow> parseInt v = Num n \<Longrightarrow>
   handleErrorResponse r =
     RateLimit (RateLimitError ''Prime API rate limit exceeded. Please wait before retrying.''
       (Num n))"
  by (auto simp: handleErrorResponse_429 parseInt_def)

text \<open>
  C6 at a header that is not an integer. \<open>Retry-After\<close> may be an HTTP date; \<open>parseInt\<close>
  makes \<open>NaN\<close> of it, the conditional only tests that the header is there, and the
  constructor's default of 60 applies to a missing argument only. The error raised for
  such a 429 carries \<open>NaN\<close>, where C6 says 60.
\<close>

theorem retry_after_malformed_is_NaN:
  "handleErrorResponse (rateLimited [(''retry-after'', ''Wed, 21 Oct 2015 07:28:00 GMT'')])
     = RateLimit (RateLimitError ''Prime API rate limit exceeded. Please wait before retrying.''
         NaN)"
  by (simp add: handleErrorResponse_429 rateLimited_def get_def parseInt_date)

text \<open>
  C7, as stated, fails: a 501 is raised with the code \<open>API_ERROR\<close>, the classification of
  anything unrecognised.
\<close>

theorem server_error_501_counterexample:
  "500 \<le> status notImplemented \<and> status notImplemented \<le> 599
   \<and> handleErrorResponse notImplemented
       = Api (PrimeApiError (errorMessage notImplemented) ''API_ERROR'' 501 None)"
  by (simp add: handleErrorResponse_def notImplemented_def errorDetails_def)

text \<open>
  C7, amended. A response with status 500, 502, 503 or 504 is raised as \<open>SERVER_ERROR\<close>
  carrying that status; every other status from 500 to 599 is raised as \<open>API_ERROR\<close>
  carrying that status.
\<close>

theorem server_error_classes:
  "(status r \<in> {500, 502, 503, 504} \<longrightarrow>
      handleErrorResponse r
        = Api (PrimeApiError (''Server error: '' @ errorMessage r) ''SERVER_ERROR'' (status r) None))
   \<and> (500 \<le> status r \<and> status r \<le> 599 \<and> status r \<notin> {500, 502, 503, 504} \<longrightarrow>
      handleErrorResponse r
        = Api (PrimeApiError (errorMessage r) ''API_ERROR'' (status r) (errorDetails r)))"
  by (auto simp: handleErrorResponse_def Let_def)

theorem server_error_classes_witness:
  "handleErrorResponse (notImplemented\<lparr>status := 503\<rparr>)
     = Api (PrimeApiError (''Server error: '' @ errorMessage (notImplemented\<lparr>status := 503\<rparr>))
              ''SERVER_ERROR'' 503 None)
   \<and> handleErrorResponse (notImplemented\<lparr>status := 599\<rparr>)
     = Api (PrimeApiError (errorMessage (notImplemented\<lparr>status := 599\<rparr>))
              ''API_ERROR'' 599 None)"
  using server_error_classes [of "notImplemented\<lparr>status := 503\<rparr>"]
        server_error_classes [of "notImplemented\<lparr>status := 599\<rparr>"]
  by (simp add: notImplemented_def errorDetails_def)

section \<open>Properties of the OAuth client\<close>

lemma getAccessToken_cases:
  "getAccessToken fresh now c = (Joined p, c') \<Longrightarrow> c' = c \<and> refreshPromise c = Some p"
  "getAccessToken fresh now c = (Cached v, c') \<Longrightarrow> c' = c \<and> refreshPromise c = None"
  "getAccessToken fresh now c = (Started p, c') \<Longrightarrow>
     p = fresh \<and> c' = c\<lparr>refreshPromise := Some fresh\<rparr> \<and> refreshPromise c = None"
  by (auto simp: getAccessToken_def split: option.splits if_splits)

lemma enter_inv:
  assumes "tokenInv ts" "getAccessToken (length (promises ts)) now c = r"
    "refreshPromise c = refreshPromise (client ts)"
  shows "tokenInv (enter ts r)"
proof (cases "fst r")
  case (Joined p)
  then have "snd r = c" using assms(2) getAccessToken_cases(1) [of _ now c p "snd r"]
    by (metis prod.collapse)
  then show ?thesis using assms Joined by (simp add: enter_def tokenInv_def)
next
  case (Cached v)
  then have "snd r = c" using assms(2) getAccessToken_cases(2) [of _ now c v "snd r"]
    by (metis prod.collapse)
  then show ?thesis using assms Cached by (simp add: enter_def tokenInv_def)
next
  case (Started p)
  then have s: "p = length (promises ts) \<and> snd r = c\<lparr>refreshPromise := Some (length (promises ts))\<rparr>
      \<and> refreshPromise c = None"
    using assms(2) getAccessToken_cases(3) [of "length (promises ts)" now c p "snd r"]
    by (metis prod.collapse)
  then have "\<forall>q < length (promises ts). cleared (promises ts ! q)"
    using assms(1,3) by (auto simp: tokenInv_def)
  then show ?thesis using s Started assms(1)
    by (auto simp: enter_def tokenInv_def nth_append less_Suc_eq)
qed

lemma acquireToken_keeps_promise:
  "refreshPromise (snd (acquireToken now reply c)) = refreshPromise c"
  by (simp add: acquireToken_def Let_def split: token_reply.splits error_text.splits)

lemma settlement_not_Pending: "settlement r \<noteq> Pending"
  by (simp add: settlement_def split: sum.splits)

lemma tokenStep_inv: "tokenInv ts \<Longrightarrow> tokenInv (tokenStep ts e)"
proof (induction ts e rule: tokenStep.induct)
  case (1 ts)
  then show ?case by (simp add: enter_inv [where c = "client ts"])
next
  case (2 ts)
  then show ?case
    by (simp add: refreshToken_def enter_inv [where c = "(client ts)\<lparr>token := None, tokenExpiresAt := 0\<rparr>"])
next
  case (3 ts p reply)
  show ?case
  proof (cases "p < length (promises ts) \<and> settled (promises ts ! p) = Pending")
    case True
    obtain r c where rc: "acquireToken (instant ts) reply (client ts) = (r, c)"
      by (cases "acquireToken (instant ts) reply (client ts)")
    then have "refreshPromise c = refreshPromise (client ts)"
      using acquireToken_keeps_promise [of "instant ts" reply "client ts"] by simp
    then show ?thesis using 3 True rc
      by (auto simp: tokenInv_def nth_list_update settlement_not_Pending)
  next
    case False
    then show ?thesis using 3 by auto
  qed
next
  case (4 ts p)
  show ?case
  proof (cases "p < length (promises ts) \<and> settled (promises ts ! p) \<noteq> Pending
         \<and> \<not> cleared (promises ts ! p)")
    case True
    then have "refreshPromise (client ts) = Some p" using 4 by (auto simp: tokenInv_def)
    then have "\<forall>q < length (promises ts). q \<noteq> p \<longrightarrow> cleared (promises ts ! q)"
      using 4 by (auto simp: tokenInv_def)
    then show ?thesis using 4 True
      by (auto simp: tokenInv_def nth_list_update clearRefreshPromise_def)
  next
    case False
    then show ?thesis using 4 by auto
  qed
next
  case (5 ts ms)
  then show ?case by (simp add: tokenInv_def)
qed

lemma tokenRun_inv: "tokenInv ts \<Longrightarrow> tokenInv (tokenRun ts es)"
  unfolding tokenRun_def by (induction es arbitrary: ts) (auto simp: tokenStep_inv)

lemma tokenInv_new: "tokenInv (newTokenSystem now)"
  by (simp add: tokenInv_def newTokenSystem_def)

lemma filter_at_most_one:
  assumes "\<forall>i < length xs. \<forall>j < length xs. P (xs ! i) \<and> P (xs ! j) \<longrightarrow> i = j"
  shows "length (filter P xs) \<le> 1"
  using assms
proof (induction xs)
  case Nil
  then show ?case by simp
next
  case (Cons x xs)
  have rest: "\<forall>i < length xs. \<forall>j < length xs. P (xs ! i) \<and> P (xs ! j) \<longrightarrow> i = j"
  proof (intro allI impI)
    fix i j assume "i < length xs" "j < length xs" "P (xs ! i) \<and> P (xs ! j)"
    then have "Suc i = Suc j" using Cons.prems by (metis length_Cons not_less_eq nth_Cons_Suc)
    then show "i = j" by simp
  qed
  show ?case
  proof (cases "P x")
    case True
    have "\<not> P (xs ! i)" if "i < length xs" for i
    proof
      assume "P (xs ! i)"
      then have "(0::nat) = Suc i" using Cons.prems True that
        by (metis length_Cons not_less_eq nth_Cons_0 nth_Cons_Suc zero_less_Suc)
      then show False by simp
    qed
    then have "filter P xs = []" by (auto simp: filter_empty_conv in_set_conv_nth)
    then show ?thesis using True by simp
  next
    case False
    then show ?thesis using Cons.IH [OF rest] by simp
  qed
qed

lemma inv_single_flight:
  assumes "tokenInv ts"
  shows "inFlight ts \<le> 1"
  unfolding inFlight_def
proof (rule filter_at_most_one, intro allI impI)
  fix i j
  assume i: "i < length (promises ts)" and j: "j < length (promises ts)"
    and p: "settled (promises ts ! i) = Pending \<and> settled (promises ts ! j) = Pending"
  have "refreshPromise (client ts) = Some i" using assms i p by (simp add: tokenInv_def)
  moreover have "refreshPromise (client ts) = Some j" using assms j p by (simp add: tokenInv_def)
  ultimately show "i = j" by simp
qed

lemma inv_idle: "tokenInv ts \<Longrightarrow> refreshPromise (client ts) = None \<Longrightarrow> inFlight ts = 0"
  unfolding inFlight_def
  by (auto simp: tokenInv_def filter_empty_conv in_set_conv_nth)


lemma tokenRun_Cons: "tokenRun ts (e # es) = tokenRun (tokenStep ts e) es"
  by (simp add: tokenRun_def)

lemma tokenRun_Nil: "tokenRun ts [] = ts"
  by (simp add: tokenRun_def)

lemma get_starts:
  assumes "token (client ts) = None" "refreshPromise (client ts) = None"
  shows "tokenStep ts Get =
     ts\<lparr>client := (client ts)\<lparr>refreshPromise := Some (length (promises ts))\<rparr>,
        promises := promises ts @ [\<lparr> settled = Pending, cleared = False \<rparr>],
        callers := callers ts @ [Awaiting (length (promises ts))]\<rparr>"
  using assms by (simp add: getAccessToken_def enter_def)

lemma get_joins:
  assumes "refreshPromise (client ts) = Some p"
  shows "tokenRun ts (replicate k Get) = ts\<lparr>callers := callers ts @ replicate k (Awaiting p)\<rparr>"
  using assms
proof (induction k arbitrary: ts)
  case 0
  then show ?case by (simp add: tokenRun_Nil)
next
  case (Suc k)
  have "tokenStep ts Get = ts\<lparr>callers := callers ts @ [Awaiting p]\<rparr>"
    using Suc.prems by (simp add: getAccessToken_def enter_def)
  then show ?case using Suc.IH [of "ts\<lparr>callers := callers ts @ [Awaiting p]\<rparr>"] Suc.prems
    by (simp add: tokenRun_Cons replicate_append_same del: tokenStep.simps)
qed

lemma burst_shares:
  assumes "token (client ts) = None" "refreshPromise (client ts) = None"
  shows "tokenRun ts (replicate (Suc k) Get) =
     ts\<lparr>client := (client ts)\<lparr>refreshPromise := Some (length (promises ts))\<rparr>,
        promises := promises ts @ [\<lparr> settled = Pending, cleared = False \<rparr>],
        callers := callers ts @ replicate (Suc k) (Awaiting (length (promises ts)))\<rparr>"
  by (simp add: tokenRun_Cons get_starts [OF assms] get_joins [where p = "length (promises ts)"]
      replicate_append_same del: tokenStep.simps)

lemma inFlight_snoc_pending:
  "inFlight (ts\<lparr>promises := promises ts @ [\<lparr> settled = Pending, cleared = False \<rparr>]\<rparr>) = Suc (inFlight ts)"
  by (simp add: inFlight_def)


text \<open>
  C8. After every history of the client at most one acquisition is in flight. If, after
  a history, no credential is cached and no acquisition is in flight, then any number of
  calls of \<open>getAccessToken\<close> made before the endpoint answers create one promise, hence send
  one request, and every one of the callers awaits that promise; whatever the endpoint
  answers, every one of them receives the same settlement, for a token its access token.
  And callers that arrive while an acquisition is in flight create no promise and await
  the one in flight.
\<close>

theorem token_acquisition_is_shared:
  "inFlight (tokenRun (newTokenSystem t0) es) \<le> 1
   \<and> (token (client (tokenRun (newTokenSystem t0) es)) = None
        \<and> refreshPromise (client (tokenRun (newTokenSystem t0) es)) = None \<longrightarrow>
      (let ts = tokenRun (newTokenSystem t0) es;
           p = length (promises ts);
           ts' = tokenRun ts (replicate (Suc k) Get)
       in promises ts' = promises ts @ [\<lparr> settled = Pending, cleared = False \<rparr>]
          \<and> inFlight ts' = 1
          \<and> callers ts' = callers ts @ replicate (Suc k) (Awaiting p)
          \<and> (\<forall>i < Suc k.
                received (tokenStep ts' (Reply p reply)) (length (callers ts) + i)
                  = settlement (fst (acquireToken (instant ts) reply (client ts'))))))
   \<and> (refreshPromise (client (tokenRun (newTokenSystem t0) es)) = Some q \<longrightarrow>
      (let ts = tokenRun (newTokenSystem t0) es;
           ts' = tokenRun ts (replicate n Get)
       in promises ts' = promises ts
          \<and> callers ts' = callers ts @ replicate n (Awaiting q)))"
proof -
  let ?ts = "tokenRun (newTokenSystem t0) es"
  let ?p = "length (promises ?ts)"
  let ?ts' = "tokenRun ?ts (replicate (Suc k) Get)"
  have inv: "tokenInv ?ts" by (simp add: tokenRun_inv tokenInv_new)
  have one: "inFlight ?ts \<le> 1" by (rule inv_single_flight [OF inv])
  have rest: "promises ?ts' = promises ?ts @ [\<lparr> settled = Pending, cleared = False \<rparr>]
          \<and> inFlight ?ts' = 1
          \<and> callers ?ts' = callers ?ts @ replicate (Suc k) (Awaiting ?p)
          \<and> (\<forall>i < Suc k.
                received (tokenStep ?ts' (Reply ?p reply)) (length (callers ?ts) + i)
                  = settlement (fst (acquireToken (instant ?ts) reply (client ?ts'))))"
    if idle: "token (client ?ts) = None" "refreshPromise (client ?ts) = None"
  proof -
    note b = burst_shares [OF idle, of k]
    have z: "inFlight ?ts = 0" by (rule inv_idle [OF inv idle(2)])
    have f: "inFlight ?ts' = 1" unfolding b using z by (simp add: inFlight_def)
    have r: "received (tokenStep ?ts' (Reply ?p reply)) (length (callers ?ts) + i)
                  = settlement (fst (acquireToken (instant ?ts) reply (client ?ts')))"
      if "i < Suc k" for i
      unfolding b using that
      by (simp add: received_def nth_append split: prod.splits del: replicate_Suc)
    show ?thesis using f r unfolding b by simp
  qed
  have joins: "promises (tokenRun ?ts (replicate n Get)) = promises ?ts
      \<and> callers (tokenRun ?ts (replicate n Get)) = callers ?ts @ replicate n (Awaiting q)"
    if "refreshPromise (client ?ts) = Some q"
    by (simp add: get_joins [OF that])
  show ?thesis unfolding Let_def using one rest joins by blast
qed

theorem token_acquisition_is_shared_witness:
  "inFlight (tokenRun (newTokenSystem 0) [Get, Get, Get]) = 1
   \<and> length (promises (tokenRun (newTokenSystem 0) [Get, Get, Get])) = 1
   \<and> callers (tokenRun (newTokenSystem 0) [Get, Get, Get]) = [Awaiting 0, Awaiting 0, Awaiting 0]
   \<and> map (received (tokenRun (newTokenSystem 0) [Get, Get, Get, Reply 0 (Ok abc)])) [0, 1, 2]
       = [Fulfilled ''abc'', Fulfilled ''abc'', Fulfilled ''abc'']"
proof -
  have e: "tokenRun (newTokenSystem 0) [] = newTokenSystem 0" by (simp add: tokenRun_Nil)
  have g: "replicate (Suc 2) Get = [Get, Get, Get]" by (simp add: numeral_2_eq_2)
  have s: "tokenRun (newTokenSystem 0) [Get, Get, Get, Reply 0 (Ok abc)]
           = tokenStep (tokenRun (newTokenSystem 0) [Get, Get, Get]) (Reply 0 (Ok abc))"
    by (simp add: tokenRun_def)
  have a: "settlement (fst (acquireToken t (Ok abc) c)) = Fulfilled ''abc''" for t c
    by (simp add: acquireToken_def settlement_def abc_def)
  have idle: "token (client (newTokenSystem 0)) = None \<and> refreshPromise (client (newTokenSystem 0)) = None"
    by (simp add: newTokenSystem_def newOAuthClient_def)
  have n: "promises (newTokenSystem 0) = [] \<and> callers (newTokenSystem 0) = []"
    by (simp add: newTokenSystem_def)
  note t = token_acquisition_is_shared [where ?t0.0 = 0 and es = "[]" and k = 2
      and reply = "Ok abc", unfolded e g Let_def a]
  have r: "received (tokenStep (tokenRun (newTokenSystem 0) [Get, Get, Get]) (Reply 0 (Ok abc))) i
           = Fulfilled ''abc''" if "i < Suc 2" for i
    using t idle n that by (simp del: tokenStep.simps)
  show ?thesis unfolding s using t idle n r [of 0] r [of 1] r [of 2]
    by (simp add: numeral_3_eq_3 del: tokenStep.simps)
qed

text \<open>
  C9. A call of \<open>getAccessToken\<close> answers with the cached value \<open>v\<close> exactly when no
  acquisition is in flight, a token with that access token is cached, and the instant is
  earlier than \<open>tokenExpiresAt\<close> less the five-minute buffer; with no acquisition in flight
  and no such token it starts a new acquisition. An acquisition answered at \<open>t0\<close> stores
  the token with the expiry \<open>t0 + expires_in * 1000\<close>. A token with \<open>expires_in = 1\<close> is
  therefore not reused at any later instant: the next call starts a new acquisition.
\<close>

theorem cached_token_only_before_buffer:
  "(fst (getAccessToken fresh now c) = Cached v)
     = (refreshPromise c = None \<and> (\<exists>t. token c = Some t \<and> access_token t = v)
        \<and> now < tokenExpiresAt c - REFRESH_BUFFER_MS)
   \<and> (refreshPromise c = None \<and> \<not> hasValidToken now c \<longrightarrow>
        getAccessToken fresh now c = (Started fresh, c\<lparr>refreshPromise := Some fresh\<rparr>))
   \<and> acquireToken t0 (Ok tok) c
        = (Inr (access_token tok), c\<lparr>token := Some tok, tokenExpiresAt := t0 + expires_in tok * 1000\<rparr>)
   \<and> (expires_in tok = 1 \<and> t0 \<le> now \<longrightarrow>
        fst (getAccessToken fresh now (clearRefreshPromise (snd (acquireToken t0 (Ok tok) c))))
          = Started fresh)"
  by (auto simp: getAccessToken_def hasValidToken_def acquireToken_def clearRefreshPromise_def
      REFRESH_BUFFER_MS_def split: option.splits)

theorem cached_token_only_before_buffer_witness:
  "fst (getAccessToken 1 301001
          (clearRefreshPromise (snd (acquireToken 0 (Ok abc) (newOAuthClient\<lparr>refreshPromise := Some 0\<rparr>)))))
     = Started 1
   \<and> fst (getAccessToken 1 0
          (clearRefreshPromise (snd (acquireToken 0 (Ok (abc\<lparr>expires_in := 3600\<rparr>))
             (newOAuthClient\<lparr>refreshPromise := Some 0\<rparr>)))))
     = Cached ''abc''"
  using cached_token_only_before_buffer [where fresh = 1 and now = 301001 and ?t0.0 = 0
      and tok = abc and c = "newOAuthClient\<lparr>refreshPromise := Some 0\<rparr>"]
    cached_token_only_before_buffer [where fresh = 1 and now = 0 and v = "''abc''" and
      c = "clearRefreshPromise (snd (acquireToken 0 (Ok (abc\<lparr>expires_in := 3600\<rparr>))
             (newOAuthClient\<lparr>refreshPromise := Some 0\<rparr>)))"]
  by (simp add: abc_def clearRefreshPromise_def acquireToken_def newOAuthClient_def REFRESH_BUFFER_MS_def)

section \<open>Properties of \<open>request\<close>\<close>

subsection \<open>The steps of a call\<close>



text \<open>
  A caller that waits in the limiter makes no call of its own meanwhile: the journal and
  the numbers of its exchanges stand still.
\<close>

lemma awaitAcquire_journal:
  "journal (snd (awaitAcquire sv tid out w)) = journal w
   \<and> fetches (snd (awaitAcquire sv tid out w)) = fetches w
   \<and> tokenFetches (snd (awaitAcquire sv tid out w)) = tokenFetches w"
proof (induction sv tid out w rule: awaitAcquire.induct)
  case (1 sv tid out w)
  show ?case
  proof (cases "ahead w")
    case Nil
    then show ?thesis by (simp add: awaitAcquire_unresumed)
  next
    case (Cons i rest)
    show ?thesis
    proof (cases out)
      case Admitted
      then show ?thesis by (simp add: awaitAcquire_Admitted)
    next
      case (Thrown e)
      then show ?thesis by (simp add: awaitAcquire_Thrown)
    next
      case AwaitSlot
      obtain out' l where s: "slotLoop tid (clock w + int (elapsed i)) (limiterThen i) = (out', l)"
        by (cases "slotLoop tid (clock w + int (elapsed i)) (limiterThen i)")
      show ?thesis
        using "1.IH"(1) [OF Cons AwaitSlot refl, of out' l] s
        by (subst (1 2 3) awaitAcquire.simps) (simp add: Cons AwaitSlot resumed_def)
    next
      case (AwaitRefill ms)
      obtain out' l where s: "resumeAfterSleep (zone sv)
          (clock w + int (max (nat ms) (elapsed i))) (limiterThen i) = (out', l)"
        by (cases "resumeAfterSleep (zone sv)
          (clock w + int (max (nat ms) (elapsed i))) (limiterThen i)")
      show ?thesis
        using "1.IH"(2) [OF Cons AwaitRefill refl, of out' l] s
        by (subst (1 2 3) awaitAcquire.simps) (simp add: Cons AwaitRefill resumed_def)
    qed
  qed
qed

lemma enterLimiter_journal:
  "journal (snd (enterLimiter sv tid releaseSlot w)) = journal w @ [Acquire, Release]
   \<and> journal (snd (enterLimiter sv tid id w)) = journal w @ [Acquire]
   \<and> fetches (snd (enterLimiter sv tid releaseSlot w)) = fetches w
   \<and> fetches (snd (enterLimiter sv tid id w)) = fetches w"
  by (simp add: enterLimiter_def awaitAcquire_journal releaseSlot_def logged_def
      split: prod.splits)

lemma enterLimiter_trace:
  assumes "enterLimiter sv tid releaseSlot w = (out, w')"
  shows "journal w' = journal w @ [Acquire, Release] \<and> fetches w' = fetches w"
  using enterLimiter_journal [of sv tid w] assms by simp

lemma awaitToken_journal:
  "journal (snd (awaitToken sv forced w))
     \<in> {journal w @ [if forced then RefreshToken else GetAccessToken],
         journal w @ [if forced then RefreshToken else GetAccessToken, TokenFetch]}
   \<and> fetches (snd (awaitToken sv forced w)) = fetches w"
  by (auto simp: awaitToken_def logged_def Let_def resumed_def
      split: prod.splits token_outcome.splits list.splits)

lemma awaitToken_trace:
  assumes "awaitToken sv forced w = (out, w')"
  shows "journal w' \<in> {journal w @ [if forced then RefreshToken else GetAccessToken],
                        journal w @ [if forced then RefreshToken else GetAccessToken, TokenFetch]}
    \<and> fetches w' = fetches w"
  using awaitToken_journal [of sv forced w] assms by simp

lemma exchange_journal:
  "journal (snd (exchange sv options v w)) = journal w @ [Fetch options v]
   \<and> fetches (snd (exchange sv options v w)) = fetches w + 1"
  by (simp add: exchange_def logged_def Let_def split: prod.splits fetch_reply.splits)

lemma exchange_trace:
  assumes "exchange sv options v w = (reply, w')"
  shows "journal w' = journal w @ [Fetch options v] \<and> fetches w' = fetches w + 1"
  using exchange_journal [of sv options v w] assms by simp

lemma conclude_trace:
  assumes "conclude r w = (out, w')"
  shows "journal w' = journal w @ [Release] \<and> fetches w' = fetches w \<and> out \<noteq> Suspended"
  using assms
  by (auto simp: conclude_def releaseSlot_def logged_def split: if_splits decoded.splits)


subsection \<open>What an admission takes\<close>







subsection \<open>A call whose first attempt is answered\<close>

text \<open>
  What \<open>handleErrorResponse\<close> raises is what the call ends with: a top-level call that has
  been admitted and given a token, and whose first network attempt is answered by a
  response that is not ok and not a 401, settles with the classified error after that one
  attempt and one \<open>release\<close>.
\<close>

lemma request_raises_classified:
  assumes "enterLimiter sv tid id w = (Admitted, w1)"
    and "awaitToken sv False w1 = (Settled (Inr v), w2)"
    and "exchange sv options v w2 = (Responds r, w4)"
    and "\<not> ok r" and "status r \<noteq> 401"
  shows "request sv tid id options w = (Settled (Inl (handleErrorResponse r)), releaseSlot w4)"
  by (subst request.simps) (simp add: assms conclude_def)

text \<open>A call that is not to be retried goes through the limiter, the OAuth client and the
  network once.\<close>

lemma request_final:
  assumes "retryOnAuthError options = Some False"
  shows "request sv tid onYield options w =
     (case enterLimiter sv tid onYield w of
        (Thrown e, w1) \<Rightarrow> (Settled (Inl (RateLimit e)), w1)
      | (AwaitSlot, w1) \<Rightarrow> (Suspended, w1)
      | (AwaitRefill ms, w1) \<Rightarrow> (Suspended, w1)
      | (Admitted, w1) \<Rightarrow>
          (case awaitToken sv False w1 of
             (Suspended, w2) \<Rightarrow> (Suspended, w2)
           | (Settled (Inl e), w2) \<Rightarrow> (Settled (Inl (authError e)), releaseSlot w2)
           | (Settled (Inr accessToken), w2) \<Rightarrow>
               (case exchange sv options accessToken w2 of
                  (Rejects m, w3) \<Rightarrow> (Settled (Inl (TypeError m)), releaseSlot w3)
                | (Responds response, w4) \<Rightarrow> conclude response w4)))"
  by (subst request.simps)
     (simp add: assms split: prod.splits acquire_outcome.splits outcome.splits sum.splits
        fetch_reply.splits)

lemma first_401_unfolds:
  assumes "retryOnAuthError options \<noteq> Some False"
    and "enterLimiter sv tid id w = (Admitted, w1)"
    and "awaitToken sv False w1 = (Settled (Inr v1), w2)"
    and "exchange sv options v1 w2 = (Responds r1, w4)"
    and "status r1 = 401"
  shows "request sv tid id options w =
     (case awaitToken sv True w4 of
        (Suspended, w5) \<Rightarrow> (Suspended, w5)
      | (Settled (Inl e), w5) \<Rightarrow> (Settled (Inl (authError e)), releaseSlot w5)
      | (Settled (Inr fresh), w5) \<Rightarrow>
          (case enterLimiter sv (Suc tid) releaseSlot w5 of
             (Thrown e, w6) \<Rightarrow> (Settled (Inl (RateLimit e)), w6)
           | (AwaitSlot, w6) \<Rightarrow> (Suspended, w6)
           | (AwaitRefill ms, w6) \<Rightarrow> (Suspended, w6)
           | (Admitted, w6) \<Rightarrow>
               (case awaitToken sv False w6 of
                  (Suspended, w7) \<Rightarrow> (Suspended, w7)
                | (Settled (Inl e), w7) \<Rightarrow> (Settled (Inl (authError e)), releaseSlot w7)
                | (Settled (Inr v2), w7) \<Rightarrow>
                    (case exchange sv (options\<lparr>retryOnAuthError := Some False\<rparr>) v2 w7 of
                       (Rejects m, w8) \<Rightarrow> (Settled (Inl (TypeError m)), releaseSlot w8)
                     | (Responds r2, w9) \<Rightarrow> conclude r2 w9))))"
proof -
  have main: "request sv tid id options w =
     (case awaitToken sv True w4 of
        (Suspended, w5) \<Rightarrow> (Suspended, w5)
      | (Settled (Inl e), w5) \<Rightarrow> (Settled (Inl (authError e)), releaseSlot w5)
      | (Settled (Inr fresh), w5) \<Rightarrow>
          request sv (Suc tid) releaseSlot (options\<lparr>retryOnAuthError := Some False\<rparr>) w5)"
    by (subst request.simps) (simp add: assms)
  have final: "request sv (Suc tid) releaseSlot (options\<lparr>retryOnAuthError := Some False\<rparr>) w5 =
          (case enterLimiter sv (Suc tid) releaseSlot w5 of
             (Thrown e, w6) \<Rightarrow> (Settled (Inl (RateLimit e)), w6)
           | (AwaitSlot, w6) \<Rightarrow> (Suspended, w6)
           | (AwaitRefill ms, w6) \<Rightarrow> (Suspended, w6)
           | (Admitted, w6) \<Rightarrow>
               (case awaitToken sv False w6 of
                  (Suspended, w7) \<Rightarrow> (Suspended, w7)
                | (Settled (Inl e), w7) \<Rightarrow> (Settled (Inl (authError e)), releaseSlot w7)
                | (Settled (Inr v2), w7) \<Rightarrow>
                    (case exchange sv (options\<lparr>retryOnAuthError := Some False\<rparr>) v2 w7 of
                       (Rejects m, w8) \<Rightarrow> (Settled (Inl (TypeError m)), releaseSlot w8)
                     | (Responds r2, w9) \<Rightarrow> conclude r2 w9)))" for w5
    by (rule request_final) simp
  show ?thesis
    unfolding main
    by (simp add: final split: prod.splits outcome.splits sum.splits)
qed

lemma first_401_counts:
  assumes "retryOnAuthError options \<noteq> Some False"
    and "enterLimiter sv tid id w = (Admitted, w1)"
    and "awaitToken sv False w1 = (Settled (Inr v1), w2)"
    and "exchange sv options v1 w2 = (Responds r1, w4)"
    and "status r1 = 401"
    and "request sv tid id options w = (out, w')"
  shows "count_list (journal w') RefreshToken = count_list (journal w) RefreshToken + 1
    \<and> fetches w' \<in> {fetches w + 1, fetches w + 2}
    \<and> count_list (journal w') Acquire
        = count_list (journal w) Acquire
          + (case awaitToken sv True w4 of (Settled (Inr fresh), w5) \<Rightarrow> 2 | _ \<Rightarrow> 1)
    \<and> (fetches w' = fetches w + 2 \<longrightarrow>
         out \<noteq> Suspended
         \<and> count_list (journal w') Release = count_list (journal w) Release + 2)"
proof -
  have j1: "journal w1 = journal w @ [Acquire] \<and> fetches w1 = fetches w"
    using enterLimiter_journal [of sv tid w] assms(2) by simp
  note j2 = awaitToken_trace [OF assms(3)]
  note j4 = exchange_trace [OF assms(4)]
  have r: "request sv tid id options w = (out, w')" by (rule assms(6))
  show ?thesis
    using r j1 j2 j4 unfolding first_401_unfolds [OF assms(1-5)]
    by (auto split: prod.splits outcome.splits sum.splits acquire_outcome.splits fetch_reply.splits
        simp: releaseSlot_def logged_def
        dest!: awaitToken_trace enterLimiter_trace exchange_trace conclude_trace)
qed

text \<open>
  A top-level call makes a network attempt that the service answers with the response \<open>r\<close>
  exactly when it has been admitted by the limiter and given a token and its exchange has
  returned \<open>r\<close>.
\<close>

lemma exchange_reply:
  "exchange sv options v w = (reply, w') \<Longrightarrow> reply = snd (api sv (fetches w))"
  by (auto simp: exchange_def Let_def split: prod.splits fetch_reply.splits)


lemma steps_first_attempt:
  assumes "enterLimiter sv tid id w = (Admitted, w1)"
    and "awaitToken sv False w1 = (Settled (Inr v1), w2)"
    and "exchange sv options v1 w2 = (Responds r, w4)"
  shows "fetches w < fetches (snd (request sv tid id options w))
    \<and> (\<exists>d. api sv (fetches w) = (d, Responds r))"
proof -
  have f1: "fetches w1 = fetches w" using enterLimiter_journal [of sv tid w] assms(1) by simp
  have f2: "fetches w2 = fetches w" using awaitToken_trace [OF assms(2)] f1 by simp
  have f4: "fetches w4 = fetches w + 1" using exchange_trace [OF assms(3)] f2 by simp
  have "snd (api sv (fetches w)) = Responds r"
    using exchange_reply [OF assms(3)] f2 by simp
  then have d: "\<exists>d. api sv (fetches w) = (d, Responds r)"
    by (cases "api sv (fetches w)") simp
  have "fetches w < fetches (snd (request sv tid id options w))"
  proof (cases "status r = 401 \<and> retryOnAuthError options \<noteq> Some False")
    case True
    obtain out w' where q: "request sv tid id options w = (out, w')"
      by (cases "request sv tid id options w")
    show ?thesis using first_401_counts [OF _ assms _ q] True unfolding q by auto
  next
    case False
    then have "request sv tid id options w = conclude r w4"
      by (subst request.simps) (auto simp: assms)
    moreover obtain out w' where c: "conclude r w4 = (out, w')" by (cases "conclude r w4")
    ultimately show ?thesis using conclude_trace [OF c] f4 by simp
  qed
  then show ?thesis using d by simp
qed

subsection \<open>Calls against a service that always answers 401\<close>

lemma acquire_at_start:
  "acquire tid 0 0 \<lparr> tokens = k, lastRefill = 0, dailyCount = n, dailyReset = 86400000,
                      concurrent = c, waitingQueue = [] \<rparr>
   = (if 5000 \<le> n then
        (Thrown (RateLimitError (dailyLimitMessage 86400) (Num 86400)),
         \<lparr> tokens = k, lastRefill = 0, dailyCount = n, dailyReset = 86400000,
           concurrent = c, waitingQueue = [] \<rparr>)
      else if 5 \<le> c then
        (AwaitSlot, \<lparr> tokens = k, lastRefill = 0, dailyCount = n, dailyReset = 86400000,
                      concurrent = c, waitingQueue = [tid] \<rparr>)
      else if k \<le> 0 then
        (AwaitRefill 60000, \<lparr> tokens = k, lastRefill = 0, dailyCount = n,
                              dailyReset = 86400000, concurrent = c, waitingQueue = [] \<rparr>)
      else
        (Admitted, \<lparr> tokens = k - 1, lastRefill = 0, dailyCount = n + 1,
                     dailyReset = 86400000, concurrent = c + 1, waitingQueue = [] \<rparr>))"
  by (simp add: acquire_def refillTokens_def slotLoop_def tokenLoop_def Let_def dailyLimit_def
      maxConcurrent_def refillInterval_def ceil_div_def)



lemmas scenario_defs = freshWorld_def newRateLimiter_def newOAuthClient_def getNextMidnight_def
  msPerDay_def maxTokens_def rejecting_def getJobs_def unauthorized_def hourToken_def

lemmas request_step_defs = enterLimiter_def awaitAcquire_Admitted awaitAcquire_Thrown
  awaitAcquire_unresumed exchange_def conclude_def logged_def releaseSlot_def release_def
  awaitToken_def getAccessToken_def refreshToken_def acquireToken_def clearRefreshPromise_def
  updateFromHeaders_def get_def REFRESH_BUFFER_MS_def ok_def handleErrorResponse_def Let_def


text \<open>
  The same call made when one request is left of the daily allowance: the retry is refused
  by its own admission, so the call ends with a \<open>RateLimitError\<close> after a single network
  attempt.
\<close>

lemma retry_refused_at_daily_limit:
  "request rejecting 0 id getJobs
          (freshWorld\<lparr>limiter := (newRateLimiter 0 0)\<lparr>dailyCount := 4999\<rparr>\<rparr>)
     = (Settled (Inl (RateLimit (RateLimitError (dailyLimitMessage 86400) (Num 86400)))),
        \<lparr> limiter = \<lparr> tokens = 59, lastRefill = 0, dailyCount = 5000, dailyReset = 86400000,
                      concurrent = 0, waitingQueue = [] \<rparr>,
          oauth = \<lparr> token = Some (hourToken ''second''), tokenExpiresAt = 3600000,
                    refreshPromise = None \<rparr>,
          clock = 0, fetches = 1, tokenFetches = 2,
          journal = [Acquire, GetAccessToken, TokenFetch, Fetch getJobs ''first'',
                     RefreshToken, TokenFetch, Acquire, Release],
          ahead = [] \<rparr>)"
  apply (subst request.simps)
  apply (simp add: scenario_defs acquire_at_start request_step_defs)
  apply (subst request.simps)
  apply (simp add: scenario_defs acquire_at_start request_step_defs)
  done






end
